theory Spec2Isabelle
  imports Complex_Main "HOL-Library.Word"
begin

unbundle bit_operations_syntax

section \<open>Python values shared by both modules\<close>

text \<open>
  Python's unbounded integers are \<open>int\<close>. Wall-clock and monotonic timestamps, message
  rates and the clock-quality scores are Python floats; they are modelled as \<open>real\<close>,
  so rounding of the floating-point operations is not represented. Exceptions are values:
  a function that can raise returns a sum whose left injection carries the exception.
\<close>

datatype error = ZeroDivisionError | KeyError

type_synonym icao = int
type_synonym aid = nat  \<comment> \<open>identity of a \<open>TrackedAircraft\<close> object\<close>
type_synonym rid = nat  \<comment> \<open>identity of a \<open>Receiver\<close> object\<close>

section \<open>tracker.py: the partition filter\<close>

text \<open>
  One round of the mixer, \<open>(((h >> 16) ^ h) * 0x45d9f3b) & 0xFFFFFFFF\<close>, and the whole
  hash of \<open>Tracker.in_local_partition\<close>: two such rounds and a final shift-xor.
\<close>

definition mix_round :: "int \<Rightarrow> int" where
  "mix_round h = ((drop_bit 16 h XOR h) * 0x45d9f3b) AND 0xFFFFFFFF"

definition partition_hash :: "icao \<Rightarrow> int" where
  "partition_hash icao =
     (let h = icao;
          h = mix_round h;
          h = mix_round h;
          h = drop_bit 16 h XOR h
      in h)"

text \<open>
  \<open>Tracker.in_local_partition\<close>, with the two fields of the tracker it reads passed in:
  \<open>partition_id\<close> (which \<open>Tracker.__init__\<close> sets to \<open>partition[0] - 1\<close>) and
  \<open>partition_count\<close>. Python's \<open>%\<close> raises on a zero divisor.
\<close>

definition in_local_partition :: "int \<Rightarrow> int \<Rightarrow> icao \<Rightarrow> error + bool" where
  "in_local_partition partition_id partition_count icao =
     (if partition_count = 1 then Inr True
      else if partition_count = 0 then Inl ZeroDivisionError
      else Inr (partition_hash icao mod partition_count = partition_id))"

section \<open>coordinator.py: the receiver record\<close>

text \<open>
  The fields of \<open>Receiver\<close> that the tracker, the interest selector and the clock-quality
  scorer read or write. The position, connection, clock and privacy fields are only passed
  to external collaborators or to the state dump and are left out. The four edge sets hold
  aircraft objects, by identity. \<open>last_rate_report\<close> is a dict from ICAO address to
  message rate (in insertion order) or \<open>None\<close>.
\<close>

record Receiver =
  uid :: nat
  user :: string
  dead :: bool
  last_clock_reset :: real
  clock_reset_counter :: int
  sync_peers :: int
  peer_count :: nat
  last_rate_report :: "(icao \<times> real) list option"
  r_tracking :: "aid set"
  r_adsb_seen :: "aid set"
  r_sync_interest :: "aid set"
  r_mlat_interest :: "aid set"
  requested :: "aid set"
  bad_syncs :: real
  recent_pair_jumps :: int
  recent_clock_jumps :: real

text \<open>The state \<open>Receiver.__init__\<close> builds (\<open>t\<close> is \<open>time.monotonic()\<close>).\<close>

definition Receiver_init :: "nat \<Rightarrow> string \<Rightarrow> real \<Rightarrow> Receiver" where
  "Receiver_init u name t =
     \<lparr> uid = u, user = name, dead = False, last_clock_reset = t, clock_reset_counter = 0,
       sync_peers = 0, peer_count = 0, last_rate_report = None,
       r_tracking = {}, r_adsb_seen = {}, r_sync_interest = {}, r_mlat_interest = {},
       requested = {}, bad_syncs = 0, recent_pair_jumps = 0, recent_clock_jumps = 0 \<rparr>"

subsection \<open>Clock jumps\<close>

text \<open>
  \<open>Receiver.clock_reset\<close>: the notification of the external clock tracker and the log
  line are outside the receiver's state; the timestamp and the counter are updated.
\<close>

definition clock_reset :: "real \<Rightarrow> Receiver \<Rightarrow> Receiver" where
  "clock_reset t r = r\<lparr> last_clock_reset := t, clock_reset_counter := clock_reset_counter r + 1 \<rparr>"

text \<open>
  \<open>Receiver.incrementJumps\<close>. The counter is incremented first; the true division
  \<open>recent_pair_jumps / sync_peers\<close> raises \<open>ZeroDivisionError\<close> on a zero divisor, and the
  receiver then keeps the incremented counter: the left injection carries the exception and
  the receiver as the raise leaves it.
\<close>

definition incrementJumps :: "real \<Rightarrow> Receiver \<Rightarrow> (error \<times> Receiver) + Receiver" where
  "incrementJumps t r =
     (let r = r\<lparr> recent_pair_jumps := recent_pair_jumps r + 1 \<rparr>
      in if sync_peers r = 0 then Inl (ZeroDivisionError, r)
         else if real_of_int (recent_pair_jumps r) / real_of_int (sync_peers r) > 0.2 then
           (let r = r\<lparr> recent_clock_jumps := recent_clock_jumps r + 1 \<rparr>;
                r = (if recent_clock_jumps r > 2 then r\<lparr> bad_syncs := bad_syncs r + 0.4 \<rparr> else r)
            in Inr (clock_reset t r))
         else Inr r)"

text \<open>The receiver a call leaves behind, whether it returned or raised.\<close>

definition left_behind :: "(error \<times> Receiver) + Receiver \<Rightarrow> Receiver" where
  "left_behind x = (case x of Inl (e, r) \<Rightarrow> r | Inr r \<Rightarrow> r)"

subsection \<open>The clock-quality scorer\<close>

text \<open>
  One entry of \<open>clock_tracker.dump_receiver_state()[user]\<close>: the list
  \<open>[pairing sync count, offset, drift, bad_syncs, jumped]\<close>.
\<close>

record peer_state =
  pair_sync_count :: int
  offset_us :: real
  drift :: real
  peer_bad_syncs :: real
  jumped :: int

text \<open>
  The inner loop over \<open>peers.values()\<close>: the accumulator is \<open>(num_peers, bad_peers)\<close>.
\<close>

fun count_peers :: "peer_state list \<Rightarrow> nat \<times> nat \<Rightarrow> nat \<times> nat" where
  "count_peers [] acc = acc"
| "count_peers (state # rest) (num_peers, bad_peers) =
     (if peer_bad_syncs state > 0 then count_peers rest (num_peers, bad_peers)
      else
        (let num_peers = num_peers + 1;
             bad_peers = (if (pair_sync_count state > 5 \<and> offset_us state > 1.5) \<or> offset_us state > 4
                          then bad_peers + 1 else bad_peers)
         in count_peers rest (num_peers, bad_peers)))"

text \<open>The body of the first loop over the receivers, for one receiver and its peers.\<close>

definition score_receiver :: "peer_state list \<Rightarrow> Receiver \<Rightarrow> Receiver" where
  "score_receiver peers r =
     (let (num_peers, bad_peers) = count_peers peers (10, 0);
          r = (if bad_peers > 5 \<or> real bad_peers / real num_peers > 0.1
               then r\<lparr> bad_syncs := bad_syncs r + min 1 (2 * real bad_peers / real num_peers) \<rparr>
               else r\<lparr> bad_syncs := bad_syncs r - 0.1 \<rparr>)
      in r\<lparr> bad_syncs := max 0 (min 6 (bad_syncs r)) \<rparr>)"

text \<open>
  The state changes of the second loop, for one receiver: the decay of the jump counters
  and the peer count. The blurred position it also computes goes to the dump only.
\<close>

definition decay_receiver :: "peer_state list \<Rightarrow> Receiver \<Rightarrow> Receiver" where
  "decay_receiver peers r =
     (let r = r\<lparr> recent_clock_jumps := recent_clock_jumps r - 0.5 \<rparr>;
          r = r\<lparr> recent_clock_jumps := max 0 (recent_clock_jumps r) \<rparr>;
          r = r\<lparr> recent_pair_jumps := 0 \<rparr>
      in r\<lparr> peer_count := length peers \<rparr>)"

text \<open>
  The scorer part of \<open>Coordinator._really_write_state\<close> over the receiver objects: the
  store maps an object identity to the receiver, \<open>rs\<close> is \<open>self.receivers.values()\<close> in
  iteration order and \<open>receiver_states\<close> what the clock tracker dumped, with
  \<open>receiver_states.get(r.user, {})\<close> written out.
\<close>

definition peers_of :: "(string \<rightharpoonup> (string \<times> peer_state) list) \<Rightarrow> Receiver \<Rightarrow> peer_state list" where
  "peers_of receiver_states r =
     (case receiver_states (user r) of None \<Rightarrow> [] | Some peers \<Rightarrow> map snd peers)"

fun score_loop :: "(string \<rightharpoonup> (string \<times> peer_state) list) \<Rightarrow> rid list \<Rightarrow> (rid \<Rightarrow> Receiver) \<Rightarrow> (rid \<Rightarrow> Receiver)" where
  "score_loop receiver_states [] store = store"
| "score_loop receiver_states (r # rs) store =
     score_loop receiver_states rs
       (store(r := score_receiver (peers_of receiver_states (store r)) (store r)))"

fun decay_loop :: "(string \<rightharpoonup> (string \<times> peer_state) list) \<Rightarrow> rid list \<Rightarrow> (rid \<Rightarrow> Receiver) \<Rightarrow> (rid \<Rightarrow> Receiver)" where
  "decay_loop receiver_states [] store = store"
| "decay_loop receiver_states (r # rs) store =
     decay_loop receiver_states rs
       (store(r := decay_receiver (peers_of receiver_states (store r)) (store r)))"

definition really_write_state :: "(string \<rightharpoonup> (string \<times> peer_state) list) \<Rightarrow> rid list \<Rightarrow> (rid \<Rightarrow> Receiver) \<Rightarrow> (rid \<Rightarrow> Receiver)" where
  "really_write_state receiver_states rs store =
     decay_loop receiver_states rs (score_loop receiver_states rs store)"

subsection \<open>Result fan-out\<close>






section \<open>tracker.py: aircraft, tracker and the object stores\<close>

text \<open>
  The module constants read from the environment, and the two constants of the
  configuration module, which is not part of the sources at hand: they are parameters.
\<close>

record config =
  FORCE_MLAT_INTERVAL :: int
  NO_ADSB_MLAT_SECONDS :: int
  MAX_SYNC_AC :: nat
  MAX_SYNC_RATE :: real

text \<open>
  The fields of \<open>TrackedAircraft\<close> that the tracker and the coordinator read or write. The
  four edge sets hold receiver objects, by identity. The counters, the altitude history,
  the last result and the Kalman state are written by the external solver only and are left
  out. \<open>sync_dont_use\<close> is used for its truth value.
\<close>

record TrackedAircraft =
  icao :: icao
  allow_mlat :: bool
  tracking :: "rid set"
  sync_interest :: "rid set"
  adsb_seen :: "rid set"
  last_adsb_time :: real
  last_force_mlat :: real
  force_mlat :: bool
  mlat_interest :: "rid set"
  altitude :: "real option"
  seen :: real
  sync_dont_use :: int
  sync_bad_percent :: real
  do_mlat :: bool

text \<open>
  \<open>TrackedAircraft.__init__\<close>: \<open>t\<close> is \<open>time.time()\<close> and \<open>u\<close> the draw of
  \<open>random.random()\<close>.
\<close>

definition TrackedAircraft_init :: "config \<Rightarrow> icao \<Rightarrow> bool \<Rightarrow> real \<Rightarrow> real \<Rightarrow> TrackedAircraft" where
  "TrackedAircraft_init cfg i allow t u =
     \<lparr> icao = i, allow_mlat = allow, tracking = {}, sync_interest = {}, adsb_seen = {},
       last_adsb_time = 0, last_force_mlat = t - real_of_int (FORCE_MLAT_INTERVAL cfg) * u,
       force_mlat = False, mlat_interest = {}, altitude = None, seen = t,
       sync_dont_use = 0, sync_bad_percent = 0, do_mlat = False \<rparr>"

text \<open>
  The tracker with the objects it works on. Aircraft and receivers are mutable objects that
  the sets refer to by identity, so the state holds a store for each kind: a total function
  from identities to the object's fields. \<open>aircraft\<close> is the dict \<open>self.aircraft\<close> from
  ICAO address to aircraft object, in insertion order; \<open>next_aid\<close> is the identity the next
  constructed aircraft gets. \<open>mlat_wanted\<close> starts as an empty list and is a set afterwards.
\<close>

record tracker =
  aircraft :: "(icao \<times> aid) list"
  partition_id :: int
  partition_count :: int
  mlat_wanted :: "aid set"
  mlat_wanted_ts :: real
  objs :: "aid \<Rightarrow> TrackedAircraft"
  next_aid :: aid
  rcvs :: "rid \<Rightarrow> Receiver"

text \<open>
  \<open>Tracker.__init__\<close> for the partition \<open>(index, count)\<close> at time \<open>t\<close>, over the two
  stores; no aircraft object is in use yet.
\<close>

definition Tracker_init :: "int \<times> int \<Rightarrow> real \<Rightarrow> (aid \<Rightarrow> TrackedAircraft) \<Rightarrow> (rid \<Rightarrow> Receiver) \<Rightarrow> tracker" where
  "Tracker_init part t heap store =
     \<lparr> aircraft = [], partition_id = fst part - 1, partition_count = snd part,
       mlat_wanted = {}, mlat_wanted_ts = t, objs = heap, next_aid = 0, rcvs = store \<rparr>"

subsection \<open>add, remove, remove_all\<close>

text \<open>
  The body of the loop of \<open>Tracker.add\<close> for one ICAO address. \<open>now\<close> is the
  \<open>time.time()\<close> of \<open>add\<close>; \<open>created i\<close> gives the time and the random draw that the
  constructor sees when the aircraft for \<open>i\<close> is built.
\<close>

definition add_step :: "config \<Rightarrow> rid \<Rightarrow> real \<Rightarrow> (icao \<Rightarrow> real \<times> real) \<Rightarrow> icao \<Rightarrow> tracker \<Rightarrow> error + tracker" where
  "add_step cfg receiver now created i st =
     (let touch = (\<lambda>ac st.
            st\<lparr> objs := (objs st)(ac := (objs st ac)\<lparr> tracking := insert receiver (tracking (objs st ac)),
                                                      seen := now \<rparr>),
                rcvs := (rcvs st)(receiver := (rcvs st receiver)\<lparr> r_tracking := insert ac (r_tracking (rcvs st receiver)) \<rparr>) \<rparr>)
      in case map_of (aircraft st) i of
           Some ac \<Rightarrow> Inr (touch ac st)
         | None \<Rightarrow>
             (case in_local_partition (partition_id st) (partition_count st) i of
                Inl e \<Rightarrow> Inl e
              | Inr allow \<Rightarrow>
                  (let ac = next_aid st;
                       st = st\<lparr> objs := (objs st)(ac := TrackedAircraft_init cfg i allow (fst (created i)) (snd (created i))),
                                next_aid := Suc ac,
                                aircraft := aircraft st @ [(i, ac)] \<rparr>
                   in Inr (touch ac st))))"

fun add :: "config \<Rightarrow> rid \<Rightarrow> real \<Rightarrow> (icao \<Rightarrow> real \<times> real) \<Rightarrow> icao list \<Rightarrow> tracker \<Rightarrow> error + tracker" where
  "add cfg receiver now created [] st = Inr st"
| "add cfg receiver now created (i # icao_set) st =
     (case add_step cfg receiver now created i st of
        Inl e \<Rightarrow> Inl e
      | Inr st \<Rightarrow> add cfg receiver now created icao_set st)"

text \<open>The body of the loop of \<open>Tracker.remove\<close>, and the loop.\<close>

definition remove_step :: "rid \<Rightarrow> icao \<Rightarrow> tracker \<Rightarrow> tracker" where
  "remove_step receiver i st =
     (case map_of (aircraft st) i of
        None \<Rightarrow> st
      | Some ac \<Rightarrow>
          (let st = st\<lparr> objs := (objs st)(ac := (objs st ac)\<lparr> tracking := tracking (objs st ac) - {receiver} \<rparr>),
                       rcvs := (rcvs st)(receiver := (rcvs st receiver)\<lparr> r_tracking := r_tracking (rcvs st receiver) - {ac} \<rparr>) \<rparr>
           in if tracking (objs st ac) = {} then st\<lparr> aircraft := filter (\<lambda>(k, v). k \<noteq> i) (aircraft st) \<rparr>
              else st))"

fun remove :: "rid \<Rightarrow> icao list \<Rightarrow> tracker \<Rightarrow> tracker" where
  "remove receiver [] st = st"
| "remove receiver (i # icao_set) st = remove receiver icao_set (remove_step receiver i st)"

text \<open>
  \<open>Tracker.remove_all\<close>. The loop runs over \<open>receiver.tracking\<close>, a finite set, taken
  here in the order of the identities. \<open>del self.aircraft[ac.icao]\<close> raises \<open>KeyError\<close>
  when the dict has no such key.
\<close>

definition remove_all_step :: "rid \<Rightarrow> aid \<Rightarrow> tracker \<Rightarrow> error + tracker" where
  "remove_all_step receiver ac st =
     (let st = st\<lparr> objs := (objs st)(ac := (objs st ac)\<lparr>
                      tracking := tracking (objs st ac) - {receiver},
                      sync_interest := sync_interest (objs st ac) - {receiver},
                      adsb_seen := adsb_seen (objs st ac) - {receiver},
                      mlat_interest := mlat_interest (objs st ac) - {receiver} \<rparr>) \<rparr>
      in if tracking (objs st ac) = {} then
           (case map_of (aircraft st) (icao (objs st ac)) of
              None \<Rightarrow> Inl KeyError
            | Some _ \<Rightarrow> Inr (st\<lparr> aircraft := filter (\<lambda>(k, v). k \<noteq> icao (objs st ac)) (aircraft st) \<rparr>))
         else Inr st)"

fun remove_all_loop :: "rid \<Rightarrow> aid list \<Rightarrow> tracker \<Rightarrow> error + tracker" where
  "remove_all_loop receiver [] st = Inr st"
| "remove_all_loop receiver (ac # acs) st =
     (case remove_all_step receiver ac st of
        Inl e \<Rightarrow> Inl e
      | Inr st \<Rightarrow> remove_all_loop receiver acs st)"

definition remove_all :: "rid \<Rightarrow> tracker \<Rightarrow> error + tracker" where
  "remove_all receiver st =
     (case remove_all_loop receiver (sorted_list_of_set (r_tracking (rcvs st receiver))) st of
        Inl e \<Rightarrow> Inl e
      | Inr st \<Rightarrow>
          Inr (st\<lparr> rcvs := (rcvs st)(receiver := (rcvs st receiver)\<lparr>
                 r_tracking := {}, r_adsb_seen := {}, r_sync_interest := {}, r_mlat_interest := {} \<rparr>) \<rparr>))"

subsection \<open>Randomness\<close>

text \<open>
  The draws of the \<open>random\<close> module are inputs: one function per call site, applied to the
  arguments of the call. Each call site runs at most once in a run of the interest selector
  (\<open>force_draw\<close>: once per aircraft), so a function of the arguments can stand for any
  outcome. A sample is turned into a set where it is drawn, as in the code.
\<close>

type_synonym ratepair = "real \<times> rid \<times> aid \<times> real"

record rng =
  force_draw :: "aid \<Rightarrow> real"  \<comment> \<open>\<open>random.random()\<close> in the MLAT-wanted refresh\<close>
  sample_legacy :: "aid set \<Rightarrow> nat \<Rightarrow> aid set"  \<comment> \<open>the legacy-mode \<open>random.sample\<close>\<close>
  shuffle :: "ratepair list \<Rightarrow> ratepair list"  \<comment> \<open>\<open>random.shuffle(firstHalf)\<close>\<close>
  sample_rated :: "aid set \<Rightarrow> nat \<Rightarrow> aid set"  \<comment> \<open>top-up from the rate-pair map\<close>
  sample_tracked :: "aid set \<Rightarrow> nat \<Rightarrow> aid set"  \<comment> \<open>top-up from the tracking set\<close>
  sample_quarantine :: "aid set \<Rightarrow> nat \<Rightarrow> aid set"  \<comment> \<open>the sample of \<open>update_interest_sets\<close>\<close>

subsection \<open>coordinator.py: committing the interest sets\<close>

text \<open>Python 3's \<open>round\<close> with one argument: to the nearest integer, ties to the even one.\<close>

definition py_round :: "real \<Rightarrow> int" where
  "py_round x =
     (let f = \<lfloor>x\<rfloor>; d = x - of_int f
      in if d < 1 / 2 then f else if d > 1 / 2 then f + 1 else if even f then f else f + 1)"

text \<open>
  The two loops that mirror one relation on the aircraft: \<open>added.X.add(self)\<close> for the
  aircraft of \<open>new - old\<close> and \<open>removed.X.discard(self)\<close> for those of \<open>old - new\<close>. Each
  aircraft object is visited at most once and only its own set changes, so the effect is
  given for every aircraft \<open>ac\<close> at once, on its set \<open>s\<close>.
\<close>

definition mirror :: "rid \<Rightarrow> aid set \<Rightarrow> aid set \<Rightarrow> aid \<Rightarrow> rid set \<Rightarrow> rid set" where
  "mirror self new old ac s =
     (if ac \<in> new - old then insert self s else if ac \<in> old - new then s - {self} else s)"

definition update_interest_sets :: "config \<Rightarrow> rng \<Rightarrow> rid \<Rightarrow> aid set \<Rightarrow> aid set \<Rightarrow> aid set \<Rightarrow> tracker \<Rightarrow> tracker" where
  "update_interest_sets cfg rand self new_sync new_mlat new_adsb st =
     (let me = rcvs st self;
          new_sync = (if bad_syncs me > 2 \<and> real (card new_sync) > real (MAX_SYNC_AC cfg) / 4
                      then sample_quarantine rand new_sync (nat (py_round (real (MAX_SYNC_AC cfg) / 4)))
                      else new_sync);
          new_mlat = (if bad_syncs me > 0 then {} else new_mlat)
      in st\<lparr> objs := (\<lambda>ac. (objs st ac)\<lparr>
                  adsb_seen := mirror self new_adsb (r_adsb_seen me) ac (adsb_seen (objs st ac)),
                  sync_interest := mirror self new_sync (r_sync_interest me) ac (sync_interest (objs st ac)),
                  mlat_interest := mirror self new_mlat (r_mlat_interest me) ac (mlat_interest (objs st ac)) \<rparr>),
             rcvs := (rcvs st)(self := me\<lparr> r_adsb_seen := new_adsb, r_sync_interest := new_sync,
                                             r_mlat_interest := new_mlat \<rparr>) \<rparr>)"

subsection \<open>tracker.py: the MLAT-wanted refresh\<close>

text \<open>
  The test that puts an aircraft into \<open>mlat_wanted\<close>. \<open>since_force\<close> is the local
  variable of the loop body, computed before the force-MLAT hysteresis may advance
  \<open>last_force_mlat\<close>.
\<close>

definition mlat_condition :: "config \<Rightarrow> real \<Rightarrow> real \<Rightarrow> TrackedAircraft \<Rightarrow> bool" where
  "mlat_condition cfg now since_force ac =
     (card (tracking ac) \<ge> 2 \<and> allow_mlat ac \<and>
      (now - last_adsb_time ac > real_of_int (NO_ADSB_MLAT_SECONDS cfg) \<or> sync_bad_percent ac > 10 \<or>
       (since_force > real_of_int (FORCE_MLAT_INTERVAL cfg - 15) \<and>
        since_force < real_of_int (FORCE_MLAT_INTERVAL cfg))))"

text \<open>The body of the loop over \<open>self.aircraft.values()\<close> for the aircraft object \<open>a\<close>.\<close>

definition refresh_step :: "config \<Rightarrow> rng \<Rightarrow> real \<Rightarrow> aid \<Rightarrow> tracker \<Rightarrow> tracker" where
  "refresh_step cfg rand now a st =
     (let ac = objs st a;
          since_force = now - last_force_mlat ac;
          ac = (if \<not> force_mlat ac \<and> since_force > real_of_int (FORCE_MLAT_INTERVAL cfg - 15)
                then ac\<lparr> force_mlat := True \<rparr> else ac);
          ac = (if since_force > real_of_int (FORCE_MLAT_INTERVAL cfg + 15)
                then ac\<lparr> last_force_mlat := now + force_draw rand a, force_mlat := False \<rparr> else ac)
      in if mlat_condition cfg now since_force ac
         then st\<lparr> objs := (objs st)(a := ac\<lparr> do_mlat := True \<rparr>), mlat_wanted := insert a (mlat_wanted st) \<rparr>
         else st\<lparr> objs := (objs st)(a := ac\<lparr> do_mlat := False \<rparr>) \<rparr>)"

fun refresh_loop :: "config \<Rightarrow> rng \<Rightarrow> real \<Rightarrow> aid list \<Rightarrow> tracker \<Rightarrow> tracker" where
  "refresh_loop cfg rand now [] st = st"
| "refresh_loop cfg rand now (a # rest) st = refresh_loop cfg rand now rest (refresh_step cfg rand now a st)"

text \<open>The throttled block at the head of \<open>Tracker.update_interest\<close>.\<close>

definition refresh_mlat_wanted :: "config \<Rightarrow> rng \<Rightarrow> real \<Rightarrow> tracker \<Rightarrow> tracker" where
  "refresh_mlat_wanted cfg rand now st =
     (if now - mlat_wanted_ts st > 0.1
      then (refresh_loop cfg rand now (map snd (aircraft st)) (st\<lparr> mlat_wanted := {} \<rparr>))\<lparr> mlat_wanted_ts := now \<rparr>
      else st)"

subsection \<open>tracker.py: the rate-aware selection\<close>

text \<open>
  The inner loop \<open>for r1 in ac.tracking\<close> for the aircraft object \<open>a\<close> with ICAO address
  \<open>i\<close> reported at \<open>rate\<close>: the rate pairs \<open>(rp, r1, ac, rate)\<close> it appends, in the order
  of the receivers \<open>r1s\<close>.
\<close>

fun ratepairs :: "tracker \<Rightarrow> rid \<Rightarrow> icao \<Rightarrow> real \<Rightarrow> aid \<Rightarrow> real option \<Rightarrow> rid list \<Rightarrow> ratepair list" where
  "ratepairs st receiver i rate a altFactor [] = []"
| "ratepairs st receiver i rate a altFactor (r1 # r1s) =
     (if receiver = r1 then ratepairs st receiver i rate a altFactor r1s
      else
        (let rate1 = (case last_rate_report (rcvs st r1) of
                        None \<Rightarrow> 0.8
                      | Some report \<Rightarrow> (case map_of report i of None \<Rightarrow> 0.0 | Some x \<Rightarrow> x));
             rp = rate * rate1 / 2.25;
             rp = (case altFactor of None \<Rightarrow> rp | Some f \<Rightarrow> rp * f)
         in if rp < 0.01 then ratepairs st receiver i rate a altFactor r1s
            else (rp, r1, a, rate) # ratepairs st receiver i rate a altFactor r1s))"

text \<open>
  The loop over \<open>receiver.last_rate_report.items()\<close>. \<open>rate_report_set\<close>, \<open>new_adsb\<close>
  and the keys of \<open>ac_to_ratepair_map\<close> receive the same aircraft, so one set stands for
  the three; the map gives the empty list where the dict has no key, which the code never
  looks up. The receivers of \<open>ac.tracking\<close>, a finite set, are taken in the order of
  their identities.
\<close>

record scan =
  sc_tracker :: tracker
  new_adsb :: "aid set"
  ac_to_ratepair_map :: "aid \<Rightarrow> ratepair list"
  ratepair_list :: "ratepair list"

fun scan_report :: "real \<Rightarrow> rid \<Rightarrow> (icao \<times> real) list \<Rightarrow> scan \<Rightarrow> scan" where
  "scan_report now receiver [] sc = sc"
| "scan_report now receiver ((i, rate) # items) sc =
     (case map_of (aircraft (sc_tracker sc)) i of
        None \<Rightarrow> scan_report now receiver items sc
      | Some a \<Rightarrow>
          (let st = sc_tracker sc;
               st = st\<lparr> objs := (objs st)(a := (objs st a)\<lparr> seen := now \<rparr>) \<rparr>;
               ac = objs st a;
               altFactor = (case altitude ac of
                              None \<Rightarrow> None
                            | Some alt \<Rightarrow> if alt > 0 then Some (1 + (alt / 20000) powr 1.5) else None);
               l = ratepairs st receiver i rate a altFactor (sorted_list_of_set (tracking ac))
           in scan_report now receiver items
                \<lparr> sc_tracker = st, new_adsb = insert a (new_adsb sc),
                  ac_to_ratepair_map = (ac_to_ratepair_map sc)(a := l),
                  ratepair_list = ratepair_list sc @ l \<rparr>))"

text \<open>
  \<open>ratepair_list.sort(reverse=True)\<close>. Tuples compare by their first components that
  differ: the rate products as numbers, the receivers by \<open>Receiver.__lt__\<close> (their
  \<open>uid\<close>), the aircraft by \<open>TrackedAircraft.__lt__\<close> (their \<open>icao\<close>), the rates as
  numbers. The sort is stable: an element stays behind the earlier elements that are not
  smaller than it.
\<close>

definition ratepair_lt :: "tracker \<Rightarrow> ratepair \<Rightarrow> ratepair \<Rightarrow> bool" where
  "ratepair_lt st x y =
     (case (x, y) of ((rp, r1, a, rate), (rp', r1', a', rate')) \<Rightarrow>
        if rp \<noteq> rp' then rp < rp'
        else if r1 \<noteq> r1' then uid (rcvs st r1) < uid (rcvs st r1')
        else if a \<noteq> a' then icao (objs st a) < icao (objs st a')
        else rate < rate')"

fun insert_desc :: "tracker \<Rightarrow> ratepair \<Rightarrow> ratepair list \<Rightarrow> ratepair list" where
  "insert_desc st x [] = [x]"
| "insert_desc st x (y # ys) =
     (if ratepair_lt st y x then x # y # ys else y # insert_desc st x ys)"

definition sort_reverse :: "tracker \<Rightarrow> ratepair list \<Rightarrow> ratepair list" where
  "sort_reverse st xs = foldl (\<lambda>sorted x. insert_desc st x sorted) [] xs"

text \<open>
  The two selection rounds share their loop body; the first round also skips the aircraft
  with \<open>sync_dont_use\<close> and admits a peer below 0.3, the second below 3.5. \<open>ntotal\<close> is
  only read with \<open>ntotal.get(r, 0.0)\<close>: a function that is 0 where the dict has no key.
\<close>

record selection =
  new_sync :: "aid set"
  total_rate :: real
  ntotal :: "rid \<Rightarrow> real"

fun add_totals :: "ratepair list \<Rightarrow> (rid \<Rightarrow> real) \<Rightarrow> (rid \<Rightarrow> real)" where
  "add_totals [] nt = nt"
| "add_totals ((rp2, r2, ac2, rate) # rest) nt = add_totals rest (nt(r2 := nt r2 + rp2))"

fun select_round :: "config \<Rightarrow> bool \<Rightarrow> real \<Rightarrow> tracker \<Rightarrow> (aid \<Rightarrow> ratepair list) \<Rightarrow> ratepair list \<Rightarrow> selection \<Rightarrow> selection" where
  "select_round cfg round1 limit st rmap [] sel = sel"
| "select_round cfg round1 limit st rmap ((rp, r1, a, rate) # rest) sel =
     (if a \<in> new_sync sel then select_round cfg round1 limit st rmap rest sel
      else if round1 \<and> sync_dont_use (objs st a) \<noteq> 0 then select_round cfg round1 limit st rmap rest sel
      else if total_rate sel > MAX_SYNC_RATE cfg then sel
      else if ntotal sel r1 < limit then
        select_round cfg round1 limit st rmap rest
          \<lparr> new_sync = insert a (new_sync sel), total_rate = total_rate sel + rate,
            ntotal = add_totals (rmap a) (ntotal sel) \<rparr>
      else select_round cfg round1 limit st rmap rest sel)"

text \<open>The top-up of a sync set smaller than \<open>int(MAX_SYNC_AC / 4)\<close>.\<close>

definition top_up :: "config \<Rightarrow> rng \<Rightarrow> aid set \<Rightarrow> aid set \<Rightarrow> aid set \<Rightarrow> aid set" where
  "top_up cfg rand rated tracked sync =
     (if MAX_SYNC_AC cfg div 4 > card sync then
        (let acAvailable = rated - sync;
             sync = sync \<union> sample_rated rand acAvailable (min (card acAvailable) (MAX_SYNC_AC cfg div 4 - card sync))
         in if MAX_SYNC_AC cfg div 4 > card sync then
              (let acAvailable = tracked - sync
               in sync \<union> sample_tracked rand acAvailable (min (card acAvailable) (MAX_SYNC_AC cfg div 4 - card sync)))
            else sync)
      else sync)"

subsection \<open>tracker.py: update_interest\<close>

text \<open>
  \<open>Tracker.update_interest\<close> at time \<open>now\<close>. The deferred call of
  \<open>refresh_traffic_requests\<close>, which only sends the committed sets to the connection, is
  not part of the tracker's state.
\<close>

definition update_interest :: "config \<Rightarrow> rng \<Rightarrow> real \<Rightarrow> rid \<Rightarrow> tracker \<Rightarrow> tracker" where
  "update_interest cfg rand now receiver st =
     (let st = refresh_mlat_wanted cfg rand now st;
          new_mlat = r_tracking (rcvs st receiver) \<inter> mlat_wanted st
      in case last_rate_report (rcvs st receiver) of
           None \<Rightarrow>
             (let sync = r_tracking (rcvs st receiver);
                  sync = (if card sync > MAX_SYNC_AC cfg then sample_legacy rand sync (MAX_SYNC_AC cfg) else sync)
              in update_interest_sets cfg rand receiver sync new_mlat {} st)
         | Some report \<Rightarrow>
             (let sc = scan_report now receiver report
                         \<lparr> sc_tracker = st, new_adsb = {}, ac_to_ratepair_map = (\<lambda>_. []), ratepair_list = [] \<rparr>;
                  st = sc_tracker sc;
                  sorted = sort_reverse st (ratepair_list sc);
                  splitIndex = length sorted div 2;
                  firstHalf = shuffle rand (take splitIndex sorted);
                  sel = \<lparr> new_sync = {}, total_rate = 0, ntotal = (\<lambda>_. 0) \<rparr>;
                  sel = select_round cfg True 0.3 st (ac_to_ratepair_map sc) firstHalf sel;
                  sel = select_round cfg False 3.5 st (ac_to_ratepair_map sc) sorted sel;
                  sync = top_up cfg rand (new_adsb sc) (r_tracking (rcvs st receiver)) (new_sync sel)
              in update_interest_sets cfg rand receiver sync new_mlat (new_adsb sc) st))"

subsection \<open>The object stores and the registry\<close>

text \<open>
  What the object model guarantees of the stores, since the code only ever registers an
  aircraft object that it has just constructed: the objects of the registry are in use,
  and two keys never hold the same object.
\<close>

definition registry_ok :: "tracker \<Rightarrow> bool" where
  "registry_ok st \<longleftrightarrow>
     distinct (map snd (aircraft st)) \<and> (\<forall>a \<in> snd ` set (aircraft st). a < next_aid st)"

text \<open>The two calls \<open>add(r, S); remove(r, S)\<close> in a row, stopping at an exception.\<close>

definition add_then_remove :: "config \<Rightarrow> rid \<Rightarrow> real \<Rightarrow> (icao \<Rightarrow> real \<times> real) \<Rightarrow> icao list \<Rightarrow> tracker \<Rightarrow> error + tracker" where
  "add_then_remove cfg receiver now created icao_set st =
     (case add cfg receiver now created icao_set st of
        Inl e \<Rightarrow> Inl e
      | Inr st \<Rightarrow> Inr (remove receiver icao_set st))"

subsection \<open>coordinator.py: the entry points of the connection layer\<close>

text \<open>
  \<open>Coordinator.receiver_tracking_add\<close>, \<open>receiver_tracking_remove\<close> and
  \<open>receiver_rate_report\<close>. The clock reads of one call are taken as one time \<open>now\<close>.
\<close>

definition receiver_tracking_add :: "config \<Rightarrow> rng \<Rightarrow> real \<Rightarrow> (icao \<Rightarrow> real \<times> real) \<Rightarrow> rid \<Rightarrow> icao list \<Rightarrow> tracker \<Rightarrow> error + tracker" where
  "receiver_tracking_add cfg rand now created receiver icao_set st =
     (case add cfg receiver now created icao_set st of
        Inl e \<Rightarrow> Inl e
      | Inr st \<Rightarrow>
          Inr (if last_rate_report (rcvs st receiver) = None
               then update_interest cfg rand now receiver st else st))"

definition receiver_tracking_remove :: "config \<Rightarrow> rng \<Rightarrow> real \<Rightarrow> rid \<Rightarrow> icao list \<Rightarrow> tracker \<Rightarrow> tracker" where
  "receiver_tracking_remove cfg rand now receiver icao_set st =
     (let st = remove receiver icao_set st
      in if last_rate_report (rcvs st receiver) = None
         then update_interest cfg rand now receiver st else st)"

definition receiver_rate_report :: "config \<Rightarrow> rng \<Rightarrow> real \<Rightarrow> rid \<Rightarrow> (icao \<times> real) list \<Rightarrow> tracker \<Rightarrow> tracker" where
  "receiver_rate_report cfg rand now receiver report st =
     update_interest cfg rand now receiver
       (st\<lparr> rcvs := (rcvs st)(receiver := (rcvs st receiver)\<lparr> last_rate_report := Some report \<rparr>) \<rparr>)"


section \<open>Scenarios\<close>

text \<open>
  Concrete inputs for the scenarios below. The two environment constants have their
  defaults; the two constants of the configuration module are small so that the scenarios
  stay small. A draw that takes the first \<open>k\<close> elements in the order of the identities is
  one possible outcome of \<open>random.sample\<close>, and leaving the list as it is one possible
  outcome of \<open>random.shuffle\<close>.
\<close>

definition cfg_example :: config where
  "cfg_example = \<lparr> FORCE_MLAT_INTERVAL = 600, NO_ADSB_MLAT_SECONDS = 120,
                    MAX_SYNC_AC = 2, MAX_SYNC_RATE = 3.5 \<rparr>"

definition take_sample :: "aid set \<Rightarrow> nat \<Rightarrow> aid set" where
  "take_sample population k = set (take k (sorted_list_of_set population))"

definition rng_example :: rng where
  "rng_example = \<lparr> force_draw = (\<lambda>_. 0), sample_legacy = take_sample, shuffle = (\<lambda>xs. xs),
                    sample_rated = take_sample, sample_tracked = take_sample,
                    sample_quarantine = take_sample \<rparr>"

text \<open>
  Receivers 1 and 2 track the one aircraft \<open>0xABCDEF\<close> (object 0), which last sent ADS-B at
  time 900 and was last forced into MLAT at time 395.
\<close>

definition st_forced :: tracker where
  "st_forced =
     (Tracker_init (1, 1) 0
        (\<lambda>_. (TrackedAircraft_init cfg_example 0xABCDEF True 395 0)\<lparr> tracking := {1, 2}, last_adsb_time := 900 \<rparr>)
        (\<lambda>r. (Receiver_init r ''rx'' 0)\<lparr> r_tracking := (if r = 1 \<or> r = 2 then {0} else {}) \<rparr>))
       \<lparr> aircraft := [(0xABCDEF, 0)], next_aid := 1 \<rparr>"

text \<open>
  Receiver 0 reports rates for the three aircraft it tracks (objects 0, 1, 2 with the ICAO
  addresses 1, 2, 3); receiver 1 tracks them too and sends no rate reports.
\<close>

definition st_rated :: tracker where
  "st_rated =
     (Tracker_init (1, 1) 0
        (\<lambda>a. (TrackedAircraft_init cfg_example (int a + 1) True 0 0)\<lparr> tracking := {0, 1} \<rparr>)
        (\<lambda>r. (Receiver_init r ''rx'' 0)\<lparr>
                r_tracking := (if r = 0 \<or> r = 1 then {0, 1, 2} else {}),
                last_rate_report := (if r = 0 then Some [(1, 1), (2, 1), (3, 1)] else None) \<rparr>))
       \<lparr> aircraft := [(1, 0), (2, 1), (3, 2)], next_aid := 3 \<rparr>"

text \<open>
  A run from the empty tracker: receivers 0 and 1 start tracking the aircraft \<open>0xABCDEF\<close>,
  receiver 0 sends a rate report for it, then stops tracking it, then disconnects
  (\<open>receiver_disconnect\<close> calls \<open>remove_all\<close>).
\<close>

definition st_empty :: tracker where
  "st_empty = Tracker_init (1, 1) 0 (\<lambda>_. TrackedAircraft_init cfg_example 0 False 0 0)
                (\<lambda>r. Receiver_init r ''rx'' 0)"

definition disconnect_run :: "error + tracker" where
  "disconnect_run =
     (case receiver_tracking_add cfg_example rng_example 10 (\<lambda>_. (10, 0)) 0 [0xABCDEF] st_empty of
        Inl e \<Rightarrow> Inl e
      | Inr st \<Rightarrow>
     (case receiver_tracking_add cfg_example rng_example 11 (\<lambda>_. (11, 0)) 1 [0xABCDEF] st of
        Inl e \<Rightarrow> Inl e
      | Inr st \<Rightarrow>
          (let st = receiver_rate_report cfg_example rng_example 12 0 [(0xABCDEF, 1)] st;
               st = receiver_tracking_remove cfg_example rng_example 13 0 [0xABCDEF] st
           in remove_all 0 st)))"

section \<open>Properties of the partition filter\<close>




section \<open>Properties of the clock-quality scorer\<close>

lemma count_peers_acc:
  "count_peers peers (n, b) =
     (n + length (filter (\<lambda>s. \<not> peer_bad_syncs s > 0) peers),
      b + length (filter (\<lambda>s. \<not> peer_bad_syncs s > 0 \<and>
               ((pair_sync_count s > 5 \<and> offset_us s > 1.5) \<or> offset_us s > 4)) peers))"
  by (induction peers arbitrary: n b) (simp_all add: Let_def)

lemma score_loop_distinct:
  "distinct rs \<Longrightarrow>
   score_loop rst rs store r =
     (if r \<in> set rs then score_receiver (peers_of rst (store r)) (store r) else store r)"
  by (induction rs arbitrary: store) auto

lemma decay_loop_distinct:
  "distinct rs \<Longrightarrow>
   decay_loop rst rs store r =
     (if r \<in> set rs then decay_receiver (peers_of rst (store r)) (store r) else store r)"
  by (induction rs arbitrary: store) auto

lemma bad_syncs_decay: "bad_syncs (decay_receiver peers r) = bad_syncs r"
  by (simp add: decay_receiver_def Let_def)

lemma bad_syncs_score:
  "bad_syncs (score_receiver peers r) =
     max 0 (min 6 (bad_syncs r +
       (case count_peers peers (10, 0) of (num_peers, bad_peers) \<Rightarrow>
          if bad_peers > 5 \<or> real bad_peers / real num_peers > 0.1
          then min 1 (2 * real bad_peers / real num_peers) else - 0.1)))"
  by (simp add: score_receiver_def Let_def split: prod.splits)

text \<open>
  Claim C4. In a scorer pass the peer count of a receiver starts at 10, a peer state with
  \<open>bad_syncs > 0\<close> is skipped, every other peer adds one to \<open>num_peers\<close> and counts as a
  bad peer exactly when \<open>(pair_sync_count > 5 and offset > 1.5) or offset > 4\<close>; the
  receiver's score then grows by \<open>min(1, 2 * bad_peers / num_peers)\<close> when
  \<open>bad_peers > 5\<close> or \<open>bad_peers / num_peers > 0.1\<close> and shrinks by 0.1 otherwise, before
  the clamp to \<open>[0, 6]\<close> that the same loop body applies. For a receiver of the pass the
  score after the whole pass is the one this loop body computes.
\<close>

theorem scorer_pass_scoring:
  "count_peers peers (10, 0) =
     (10 + length (filter (\<lambda>s. \<not> peer_bad_syncs s > 0) peers),
      length (filter (\<lambda>s. \<not> peer_bad_syncs s > 0 \<and>
               ((pair_sync_count s > 5 \<and> offset_us s > 1.5) \<or> offset_us s > 4)) peers))
   \<and> bad_syncs (score_receiver peers r) =
     max 0 (min 6 (bad_syncs r +
       (case count_peers peers (10, 0) of (num_peers, bad_peers) \<Rightarrow>
          if bad_peers > 5 \<or> real bad_peers / real num_peers > 0.1
          then min 1 (2 * real bad_peers / real num_peers) else - 0.1)))
   \<and> (distinct rs \<and> x \<in> set rs \<longrightarrow>
        bad_syncs (really_write_state rst rs store x) =
          bad_syncs (score_receiver (peers_of rst (store x)) (store x)))"
proof (intro conjI impI)
  show "count_peers peers (10, 0) =
     (10 + length (filter (\<lambda>s. \<not> peer_bad_syncs s > 0) peers),
      length (filter (\<lambda>s. \<not> peer_bad_syncs s > 0 \<and>
               ((pair_sync_count s > 5 \<and> offset_us s > 1.5) \<or> offset_us s > 4)) peers))"
    using count_peers_acc [of peers 10 0] by simp
next
  show "bad_syncs (score_receiver peers r) =
     max 0 (min 6 (bad_syncs r +
       (case count_peers peers (10, 0) of (num_peers, bad_peers) \<Rightarrow>
          if bad_peers > 5 \<or> real bad_peers / real num_peers > 0.1
          then min 1 (2 * real bad_peers / real num_peers) else - 0.1)))"
    by (rule bad_syncs_score)
next
  assume a: "distinct rs \<and> x \<in> set rs"
  have "really_write_state rst rs store x =
          decay_receiver (peers_of rst (score_loop rst rs store x)) (score_loop rst rs store x)"
    using a by (simp add: really_write_state_def decay_loop_distinct)
  moreover have "score_loop rst rs store x = score_receiver (peers_of rst (store x)) (store x)"
    using a by (simp add: score_loop_distinct)
  ultimately show "bad_syncs (really_write_state rst rs store x) =
          bad_syncs (score_receiver (peers_of rst (store x)) (store x))"
    by (simp add: bad_syncs_decay)
qed

theorem scorer_pass_scoring_witness:
  "distinct [0::nat] \<and> (0::nat) \<in> set [0] \<and>
   bad_syncs (really_write_state
      [''rx'' \<mapsto> [(''p1'', \<lparr> pair_sync_count = 6, offset_us = 2, drift = 0, peer_bad_syncs = 0, jumped = 0 \<rparr>),
                    (''p2'', \<lparr> pair_sync_count = 0, offset_us = 5, drift = 0, peer_bad_syncs = 0, jumped = 0 \<rparr>),
                    (''p3'', \<lparr> pair_sync_count = 9, offset_us = 9, drift = 0, peer_bad_syncs = 1, jumped = 0 \<rparr>)]]
      [0] (\<lambda>_. Receiver_init 0 ''rx'' 0) 0) = 1 / 3"
  using scorer_pass_scoring [where rs = "[0]" and x = 0 and store = "\<lambda>_. Receiver_init 0 ''rx'' 0"
      and rst = "[''rx'' \<mapsto> [(''p1'', \<lparr> pair_sync_count = 6, offset_us = 2, drift = 0, peer_bad_syncs = 0, jumped = 0 \<rparr>),
                    (''p2'', \<lparr> pair_sync_count = 0, offset_us = 5, drift = 0, peer_bad_syncs = 0, jumped = 0 \<rparr>),
                    (''p3'', \<lparr> pair_sync_count = 9, offset_us = 9, drift = 0, peer_bad_syncs = 1, jumped = 0 \<rparr>)]]"]
  by (simp add: score_receiver_def peers_of_def Receiver_init_def Let_def)

lemma score_loop_range:
  "r \<in> set rs \<or> (0 \<le> bad_syncs (store r) \<and> bad_syncs (store r) \<le> 6) \<Longrightarrow>
   0 \<le> bad_syncs (score_loop rst rs store r) \<and> bad_syncs (score_loop rst rs store r) \<le> 6"
proof (induction rs arbitrary: store)
  case Nil
  then show ?case by simp
next
  case (Cons a rs)
  have "r \<in> set rs \<or> (0 \<le> bad_syncs ((store(a := score_receiver (peers_of rst (store a)) (store a))) r)
        \<and> bad_syncs ((store(a := score_receiver (peers_of rst (store a)) (store a))) r) \<le> 6)"
    using Cons.prems by (auto simp: bad_syncs_score)
  then have "0 \<le> bad_syncs (score_loop rst rs (store(a := score_receiver (peers_of rst (store a)) (store a))) r)
      \<and> bad_syncs (score_loop rst rs (store(a := score_receiver (peers_of rst (store a)) (store a))) r) \<le> 6"
    by (rule Cons.IH [of "store(a := score_receiver (peers_of rst (store a)) (store a))"])
  then show ?case by simp
qed

lemma decay_loop_bad_syncs: "bad_syncs (decay_loop rst rs store r) = bad_syncs (store r)"
  by (induction rs arbitrary: store) (auto simp: bad_syncs_decay)

lemma decay_loop_jumps:
  "r \<in> set rs \<or> 0 \<le> recent_clock_jumps (store r) \<Longrightarrow>
   0 \<le> recent_clock_jumps (decay_loop rst rs store r)"
proof (induction rs arbitrary: store)
  case Nil
  then show ?case by simp
next
  case (Cons a rs)
  have "r \<in> set rs \<or> 0 \<le> recent_clock_jumps ((store(a := decay_receiver (peers_of rst (store a)) (store a))) r)"
    using Cons.prems by (auto simp: decay_receiver_def Let_def)
  then have "0 \<le> recent_clock_jumps (decay_loop rst rs (store(a := decay_receiver (peers_of rst (store a)) (store a))) r)"
    by (rule Cons.IH [of "store(a := decay_receiver (peers_of rst (store a)) (store a))"])
  then show ?case by simp
qed

text \<open>
  Claim C5, as amended. After a scorer pass every receiver of the pass has
  \<open>0 \<le> bad_syncs \<le> 6\<close> and \<open>recent_clock_jumps \<ge> 0\<close>, whatever they were before.
  \<open>incrementJumps\<close> keeps both values non-negative when they were, and raises
  \<open>bad_syncs\<close> by at most 0.4; it does not clamp to 6.
\<close>

theorem score_clamp_after_pass:
  "(r \<in> set rs \<longrightarrow>
      0 \<le> bad_syncs (really_write_state rst rs store r) \<and>
      bad_syncs (really_write_state rst rs store r) \<le> 6 \<and>
      0 \<le> recent_clock_jumps (really_write_state rst rs store r)) \<and>
   (0 \<le> bad_syncs x \<longrightarrow> 0 \<le> bad_syncs (left_behind (incrementJumps t x))) \<and>
   (0 \<le> recent_clock_jumps x \<longrightarrow> 0 \<le> recent_clock_jumps (left_behind (incrementJumps t x))) \<and>
   bad_syncs (left_behind (incrementJumps t x)) \<le> bad_syncs x + 0.4"
proof -
  have a: "0 \<le> bad_syncs (really_write_state rst rs store r) \<and>
      bad_syncs (really_write_state rst rs store r) \<le> 6 \<and>
      0 \<le> recent_clock_jumps (really_write_state rst rs store r)" if "r \<in> set rs"
    using that score_loop_range [of r rs store rst]
      decay_loop_jumps [of r rs "score_loop rst rs store" rst]
    by (simp add: really_write_state_def decay_loop_bad_syncs)
  have b: "(0 \<le> bad_syncs x \<longrightarrow> 0 \<le> bad_syncs (left_behind (incrementJumps t x))) \<and>
   (0 \<le> recent_clock_jumps x \<longrightarrow> 0 \<le> recent_clock_jumps (left_behind (incrementJumps t x))) \<and>
   bad_syncs (left_behind (incrementJumps t x)) \<le> bad_syncs x + 0.4"
    by (simp add: incrementJumps_def left_behind_def clock_reset_def Let_def)
  from a b show ?thesis by blast
qed

theorem score_clamp_after_pass_witness:
  "(0::nat) \<in> set [0] \<and>
   bad_syncs (really_write_state Map.empty [0] (\<lambda>_. (Receiver_init 0 ''rx'' 0)\<lparr> bad_syncs := 7 \<rparr>) 0) \<le> 6 \<and>
   0 \<le> bad_syncs (Receiver_init 0 ''rx'' 0) \<and>
   0 \<le> bad_syncs (left_behind (incrementJumps 0 (Receiver_init 0 ''rx'' 0))) \<and>
   0 \<le> recent_clock_jumps (Receiver_init 0 ''rx'' 0) \<and>
   0 \<le> recent_clock_jumps (left_behind (incrementJumps 0 (Receiver_init 0 ''rx'' 0)))"
  using score_clamp_after_pass [of 0 "[0]" Map.empty "\<lambda>_. (Receiver_init 0 ''rx'' 0)\<lparr> bad_syncs := 7 \<rparr>" "Receiver_init 0 ''rx'' 0" 0]
  by (simp add: Receiver_init_def)

text \<open>
  Claim C5, as stated, fails: a receiver with \<open>bad_syncs = 6\<close>, two recent clock jumps
  and one sync peer leaves \<open>incrementJumps\<close> with \<open>bad_syncs = 6.4\<close>.
\<close>

theorem incrementJumps_exceeds_clamp:
  "0 \<le> bad_syncs ((Receiver_init 1 ''rx'' 0)\<lparr> sync_peers := 1, bad_syncs := 6, recent_clock_jumps := 2 \<rparr>) \<and>
   bad_syncs ((Receiver_init 1 ''rx'' 0)\<lparr> sync_peers := 1, bad_syncs := 6, recent_clock_jumps := 2 \<rparr>) \<le> 6 \<and>
   incrementJumps 0 ((Receiver_init 1 ''rx'' 0)\<lparr> sync_peers := 1, bad_syncs := 6, recent_clock_jumps := 2 \<rparr>)
     = Inr ((Receiver_init 1 ''rx'' 0)\<lparr> sync_peers := 1, bad_syncs := 6.4, recent_clock_jumps := 3,
              recent_pair_jumps := 1, clock_reset_counter := 1 \<rparr>) \<and>
   \<not> bad_syncs (left_behind (incrementJumps 0
        ((Receiver_init 1 ''rx'' 0)\<lparr> sync_peers := 1, bad_syncs := 6, recent_clock_jumps := 2 \<rparr>))) \<le> 6"
  by (simp add: incrementJumps_def left_behind_def clock_reset_def Let_def Receiver_init_def)

text \<open>
  Claim C10 says that \<open>incrementJumps\<close> completes for every receiver state. On a receiver
  as \<open>Receiver.__init__\<close> builds it, with \<open>sync_peers = 0\<close>, the call raises
  \<open>ZeroDivisionError\<close> after having incremented \<open>recent_pair_jumps\<close>.
\<close>

theorem incrementJumps_zero_peers_raises:
  "incrementJumps 0 (Receiver_init 7 ''rx'' 0) =
     Inl (ZeroDivisionError, (Receiver_init 7 ''rx'' 0)\<lparr> recent_pair_jumps := 1 \<rparr>)"
  by (simp add: incrementJumps_def Receiver_init_def Let_def)

section \<open>Properties of the result fan-out\<close>




section \<open>Properties of the MLAT-wanted refresh and the committed MLAT set\<close>

lemma refresh_step_other: "a \<noteq> x \<Longrightarrow> objs (refresh_step cfg rand now x st) a = objs st a"
  by (simp add: refresh_step_def Let_def)

lemma refresh_step_wanted_other:
  "a \<noteq> x \<Longrightarrow> a \<in> mlat_wanted (refresh_step cfg rand now x st) \<longleftrightarrow> a \<in> mlat_wanted st"
  by (simp add: refresh_step_def Let_def)

lemma refresh_step_rcvs: "rcvs (refresh_step cfg rand now x st) = rcvs st"
  by (simp add: refresh_step_def Let_def)

lemma refresh_step_do_mlat:
  "do_mlat (objs (refresh_step cfg rand now a st) a) =
     mlat_condition cfg now (now - last_force_mlat (objs st a)) (objs st a)"
  by (simp add: refresh_step_def Let_def mlat_condition_def)

lemma refresh_step_wanted_self:
  "a \<in> mlat_wanted (refresh_step cfg rand now a st) \<longleftrightarrow>
     a \<in> mlat_wanted st \<or> mlat_condition cfg now (now - last_force_mlat (objs st a)) (objs st a)"
  by (auto simp add: refresh_step_def Let_def mlat_condition_def)

lemma refresh_loop_other:
  "a \<notin> set as \<Longrightarrow> objs (refresh_loop cfg rand now as st) a = objs st a"
  by (induction as arbitrary: st) (simp_all add: refresh_step_other)

lemma refresh_loop_wanted_other:
  "a \<notin> set as \<Longrightarrow> a \<in> mlat_wanted (refresh_loop cfg rand now as st) \<longleftrightarrow> a \<in> mlat_wanted st"
  by (induction as arbitrary: st) (simp_all add: refresh_step_wanted_other)

lemma refresh_loop_rcvs: "rcvs (refresh_loop cfg rand now as st) = rcvs st"
  by (induction as arbitrary: st) (simp_all add: refresh_step_rcvs)

lemma refresh_loop_member:
  "distinct as \<Longrightarrow> a \<in> set as \<Longrightarrow>
   do_mlat (objs (refresh_loop cfg rand now as st) a) =
     mlat_condition cfg now (now - last_force_mlat (objs st a)) (objs st a) \<and>
   (a \<in> mlat_wanted (refresh_loop cfg rand now as st) \<longleftrightarrow>
     a \<in> mlat_wanted st \<or> mlat_condition cfg now (now - last_force_mlat (objs st a)) (objs st a))"
proof (induction as arbitrary: st)
  case Nil
  then show ?case by simp
next
  case (Cons x xs)
  show ?case
  proof (cases "a = x")
    case True
    then have "a \<notin> set xs" using Cons.prems by simp
    then show ?thesis
      using True
      by (simp add: refresh_loop_other refresh_loop_wanted_other refresh_step_do_mlat
          refresh_step_wanted_self)
  next
    case False
    then have "a \<in> set xs" and "distinct xs" using Cons.prems by simp_all
    from Cons.IH [OF this(2) this(1), of "refresh_step cfg rand now x st"] False
    show ?thesis
      by (simp add: refresh_step_other refresh_step_wanted_other)
  qed
qed

text \<open>
  Claim C2, as amended. When the throttle lets the refresh run, an aircraft of the registry
  is put into \<open>mlat_wanted\<close> exactly when its \<open>do_mlat\<close> flag is set, and the flag is set
  exactly when at least two receivers track it, \<open>allow_mlat\<close> holds, and no ADS-B was seen
  for more than \<open>NO_ADSB_MLAT_SECONDS\<close>, or \<open>sync_bad_percent > 10\<close>, or the time since
  \<open>last_force_mlat\<close> lies strictly between \<open>FORCE_MLAT_INTERVAL - 15\<close> and
  \<open>FORCE_MLAT_INTERVAL\<close>.
\<close>

theorem mlat_wanted_refresh:
  assumes "now - mlat_wanted_ts st > 0.1"
    and "distinct (map snd (aircraft st))"
    and "(i, a) \<in> set (aircraft st)"
  shows "(a \<in> mlat_wanted (refresh_mlat_wanted cfg rand now st) \<longleftrightarrow>
           do_mlat (objs (refresh_mlat_wanted cfg rand now st) a)) \<and>
         (do_mlat (objs (refresh_mlat_wanted cfg rand now st) a) \<longleftrightarrow>
           card (tracking (objs st a)) \<ge> 2 \<and> allow_mlat (objs st a) \<and>
           (now - last_adsb_time (objs st a) > real_of_int (NO_ADSB_MLAT_SECONDS cfg) \<or>
            sync_bad_percent (objs st a) > 10 \<or>
            (real_of_int (FORCE_MLAT_INTERVAL cfg) - 15 < now - last_force_mlat (objs st a) \<and>
             now - last_force_mlat (objs st a) < real_of_int (FORCE_MLAT_INTERVAL cfg))))"
proof -
  have mem: "a \<in> set (map snd (aircraft st))" using assms(3) by force
  note m = refresh_loop_member [OF assms(2) mem, of cfg rand now "st\<lparr> mlat_wanted := {} \<rparr>"]
  have r: "refresh_mlat_wanted cfg rand now st =
             (refresh_loop cfg rand now (map snd (aircraft st)) (st\<lparr> mlat_wanted := {} \<rparr>))\<lparr> mlat_wanted_ts := now \<rparr>"
    using assms(1) by (simp add: refresh_mlat_wanted_def)
  show ?thesis
    unfolding r using m by (simp add: mlat_condition_def)
qed

theorem mlat_wanted_refresh_witness:
  "990 - mlat_wanted_ts st_forced > 0.1 \<and> distinct (map snd (aircraft st_forced)) \<and>
   (0xABCDEF, 0) \<in> set (aircraft st_forced) \<and>
   do_mlat (objs (refresh_mlat_wanted cfg_example rng_example 990 st_forced) 0) \<and>
   0 \<in> mlat_wanted (refresh_mlat_wanted cfg_example rng_example 990 st_forced)"
proof -
  have h: "990 - mlat_wanted_ts st_forced > 0.1" "distinct (map snd (aircraft st_forced))"
    "(0xABCDEF, 0) \<in> set (aircraft st_forced)"
    by (simp_all add: st_forced_def Tracker_init_def)
  have c: "card (tracking (objs st_forced 0)) \<ge> 2 \<and> allow_mlat (objs st_forced 0) \<and>
     real_of_int (FORCE_MLAT_INTERVAL cfg_example) - 15 < 990 - last_force_mlat (objs st_forced 0) \<and>
     990 - last_force_mlat (objs st_forced 0) < real_of_int (FORCE_MLAT_INTERVAL cfg_example)"
    by (simp add: st_forced_def Tracker_init_def TrackedAircraft_init_def cfg_example_def)
  from mlat_wanted_refresh [OF h, of cfg_example rng_example] c h show ?thesis by blast
qed


text \<open>
  Claim C2, as stated, fails: 605 seconds after \<open>last_force_mlat\<close>, inside the window
  \<open>[interval - 15, interval + 15]\<close>, an aircraft that two receivers track and that sent
  ADS-B 100 seconds ago is not wanted.
\<close>

theorem force_window_not_wanted:
  "card (tracking (objs st_forced 0)) \<ge> 2 \<and> allow_mlat (objs st_forced 0) \<and>
   real_of_int (FORCE_MLAT_INTERVAL cfg_example) - 15 \<le> 1000 - last_force_mlat (objs st_forced 0) \<and>
   1000 - last_force_mlat (objs st_forced 0) \<le> real_of_int (FORCE_MLAT_INTERVAL cfg_example) + 15 \<and>
   1000 - mlat_wanted_ts st_forced > 0.1 \<and>
   \<not> do_mlat (objs (refresh_mlat_wanted cfg_example rng_example 1000 st_forced) 0) \<and>
   0 \<notin> mlat_wanted (refresh_mlat_wanted cfg_example rng_example 1000 st_forced)"
  by (simp add: st_forced_def Tracker_init_def TrackedAircraft_init_def cfg_example_def
      refresh_mlat_wanted_def refresh_step_def mlat_condition_def Let_def)

lemma refresh_mlat_wanted_rcvs: "rcvs (refresh_mlat_wanted cfg rand now st) = rcvs st"
  by (simp add: refresh_mlat_wanted_def refresh_loop_rcvs)

lemma scan_report_rcvs: "rcvs (sc_tracker (scan_report now receiver items sc)) = rcvs (sc_tracker sc)"
  by (induction now receiver items sc rule: scan_report.induct) (simp_all add: Let_def split: option.splits)





section \<open>Properties of the committed sync set\<close>

lemma py_round_le_floor_Suc: "py_round x \<le> \<lfloor>x\<rfloor> + 1"
  by (simp add: py_round_def Let_def)

lemma py_round_quarter_le: "nat (py_round (real M / 4)) \<le> M"
proof -
  consider "M = 0" | "M = 1" | "2 \<le> M" by arith
  then show ?thesis
  proof cases
    case 1
    then show ?thesis by (simp add: py_round_def)
  next
    case 2
    then show ?thesis by (simp add: py_round_def Let_def)
  next
    case 3
    have "\<lfloor>real M / 4\<rfloor> = int (M div 4)"
      using floor_divide_of_nat_eq [of M 4, where ?'a = real] by simp
    with py_round_le_floor_Suc [of "real M / 4"] have "py_round (real M / 4) \<le> int (M div 4) + 1"
      by simp
    then have "nat (py_round (real M / 4)) \<le> M div 4 + 1" by simp
    also have "\<dots> \<le> M" using 3 by arith
    finally show ?thesis .
  qed
qed

lemma py_round_quarter_le_card:
  assumes "real c > real M / 4"
  shows "nat (py_round (real M / 4)) \<le> c"
proof -
  have "\<lfloor>real M / 4\<rfloor> < int c"
    using assms by (simp add: floor_less_iff)
  with py_round_le_floor_Suc [of "real M / 4"] show ?thesis by simp
qed

lemma update_interest_sets_sync:
  "r_sync_interest (rcvs (update_interest_sets cfg rand self sync mlat adsb st) self) =
     (if bad_syncs (rcvs st self) > 2 \<and> real (card sync) > real (MAX_SYNC_AC cfg) / 4
      then sample_quarantine rand sync (nat (py_round (real (MAX_SYNC_AC cfg) / 4)))
      else sync)"
  by (simp add: update_interest_sets_def Let_def)

lemma committed_sync_quarantined:
  assumes q: "\<forall>X k. k \<le> card X \<longrightarrow> card (sample_quarantine rand X k) = k"
    and bad: "bad_syncs (rcvs st self) > 2"
  shows "card (r_sync_interest (rcvs (update_interest_sets cfg rand self sync mlat adsb st) self))
           \<le> MAX_SYNC_AC cfg"
proof (cases "real (card sync) > real (MAX_SYNC_AC cfg) / 4")
  case True
  then have "nat (py_round (real (MAX_SYNC_AC cfg) / 4)) \<le> card sync"
    by (rule py_round_quarter_le_card)
  with q have "card (sample_quarantine rand sync (nat (py_round (real (MAX_SYNC_AC cfg) / 4))))
                 = nat (py_round (real (MAX_SYNC_AC cfg) / 4))" by blast
  then show ?thesis
    using True bad py_round_quarter_le [of "MAX_SYNC_AC cfg"]
    by (simp add: update_interest_sets_sync)
next
  case False
  then have "real (card sync) \<le> real (MAX_SYNC_AC cfg)" by simp
  then show ?thesis using False by (simp add: update_interest_sets_sync)
qed

lemma committed_sync_small:
  assumes q: "\<forall>X k. k \<le> card X \<longrightarrow> card (sample_quarantine rand X k) = k"
    and small: "card sync \<le> MAX_SYNC_AC cfg"
  shows "card (r_sync_interest (rcvs (update_interest_sets cfg rand self sync mlat adsb st) self))
           \<le> MAX_SYNC_AC cfg"
proof (cases "bad_syncs (rcvs st self) > 2")
  case True
  with q show ?thesis by (rule committed_sync_quarantined)
next
  case False
  then show ?thesis using small by (simp add: update_interest_sets_sync)
qed

text \<open>
  Claim C6, as amended. When every \<open>random.sample\<close> returns as many distinct elements as
  it is asked for, the committed sync interest set has at most \<open>MAX_SYNC_AC\<close> aircraft
  for a run in legacy mode (whatever \<open>bad_syncs\<close> is), and for a run in either mode in
  which the receiver's \<open>bad_syncs\<close> is greater than 2. The selection rounds of the
  rate-aware mode are limited by the rate budget \<open>MAX_SYNC_RATE\<close>, not by a count.
\<close>

theorem committed_sync_bounded:
  assumes leg: "\<forall>X k. k \<le> card X \<longrightarrow> card (sample_legacy rand X k) = k"
    and q: "\<forall>X k. k \<le> card X \<longrightarrow> card (sample_quarantine rand X k) = k"
    and mode: "last_rate_report (rcvs st receiver) = None \<or> bad_syncs (rcvs st receiver) > 2"
  shows "card (r_sync_interest (rcvs (update_interest cfg rand now receiver st) receiver))
           \<le> MAX_SYNC_AC cfg"
proof (cases "last_rate_report (rcvs st receiver)")
  case None
  define st1 where "st1 = refresh_mlat_wanted cfg rand now st"
  define t where "t = r_tracking (rcvs st1 receiver)"
  define sync where "sync = (if card t > MAX_SYNC_AC cfg then sample_legacy rand t (MAX_SYNC_AC cfg) else t)"
  have small: "card sync \<le> MAX_SYNC_AC cfg"
    using leg by (cases "card t > MAX_SYNC_AC cfg") (simp_all add: sync_def)
  have "update_interest cfg rand now receiver st =
          update_interest_sets cfg rand receiver sync (t \<inter> mlat_wanted st1) {} st1"
    using None by (simp add: update_interest_def Let_def refresh_mlat_wanted_rcvs st1_def t_def sync_def)
  then show ?thesis
    using committed_sync_small [OF q small, of receiver "t \<inter> mlat_wanted st1" "{}" st1] by simp
next
  case (Some report)
  with mode have bad: "bad_syncs (rcvs st receiver) > 2" by simp
  define st1 where "st1 = refresh_mlat_wanted cfg rand now st"
  define sc where "sc = scan_report now receiver report
      \<lparr> sc_tracker = st1, new_adsb = {}, ac_to_ratepair_map = (\<lambda>_. []), ratepair_list = [] \<rparr>"
  have bad2: "bad_syncs (rcvs (sc_tracker sc) receiver) > 2"
    using bad by (simp add: sc_def st1_def scan_report_rcvs refresh_mlat_wanted_rcvs)
  obtain sync mlat where
    "update_interest cfg rand now receiver st =
       update_interest_sets cfg rand receiver sync mlat (new_adsb sc) (sc_tracker sc)"
    using Some by (simp add: update_interest_def Let_def refresh_mlat_wanted_rcvs st1_def sc_def)
  then show ?thesis
    using committed_sync_quarantined [OF q bad2, of cfg sync mlat "new_adsb sc"] by simp
qed


lemma take_sample_card: "k \<le> card X \<Longrightarrow> card (take_sample X k) = k"
proof (cases "finite X")
  case True
  assume k: "k \<le> card X"
  have "distinct (take k (sorted_list_of_set X))" by simp
  then have "card (set (take k (sorted_list_of_set X))) = length (take k (sorted_list_of_set X))"
    by (rule distinct_card)
  also have "\<dots> = k" using k True by simp
  finally show ?thesis by (simp add: take_sample_def)
next
  case False
  assume "k \<le> card X"
  with False have "k = 0" by simp
  then show ?thesis by (simp add: take_sample_def)
qed

theorem committed_sync_bounded_witness:
  "last_rate_report (rcvs st_rated 1) = None \<and>
   r_sync_interest (rcvs (update_interest cfg_example rng_example 0 1 st_rated) 1) = {0, 1} \<and>
   card (r_sync_interest (rcvs (update_interest cfg_example rng_example 0 1 st_rated) 1))
     \<le> MAX_SYNC_AC cfg_example"
proof -
  have leg: "\<forall>X k. k \<le> card X \<longrightarrow> card (sample_legacy rng_example X k) = k"
    and q: "\<forall>X k. k \<le> card X \<longrightarrow> card (sample_quarantine rng_example X k) = k"
    by (simp_all add: rng_example_def take_sample_card)
  have none: "last_rate_report (rcvs st_rated 1) = None"
    by (simp add: st_rated_def Tracker_init_def Receiver_init_def)
  then have mode: "last_rate_report (rcvs st_rated 1) = None \<or> bad_syncs (rcvs st_rated 1) > 2" ..
  have "r_sync_interest (rcvs (update_interest cfg_example rng_example 0 1 st_rated) 1) = {0, 1}"
    by code_simp
  with committed_sync_bounded [OF leg q mode, of cfg_example 0] none show ?thesis by blast
qed


text \<open>
  Claim C6, as stated, fails in rate-aware mode: with \<open>MAX_SYNC_AC = 2\<close> and
  \<open>MAX_SYNC_RATE = 3.5\<close>, a receiver with \<open>bad_syncs = 0\<close> that reports three aircraft at
  one message per second each, all seen by a second receiver, commits all three.
\<close>

theorem rate_aware_sync_exceeds_cap:
  "last_rate_report (rcvs st_rated 0) = Some [(1, 1), (2, 1), (3, 1)] \<and>
   bad_syncs (rcvs st_rated 0) = 0 \<and>
   r_sync_interest (rcvs (update_interest cfg_example rng_example 0 0 st_rated) 0) = {0, 1, 2} \<and>
   MAX_SYNC_AC cfg_example = 2 \<and>
   \<not> card (r_sync_interest (rcvs (update_interest cfg_example rng_example 0 0 st_rated) 0))
       \<le> MAX_SYNC_AC cfg_example"
proof -
  have a: "last_rate_report (rcvs st_rated 0) = Some [(1, 1), (2, 1), (3, 1)]"
    "bad_syncs (rcvs st_rated 0) = 0"
    by (simp_all add: st_rated_def Tracker_init_def Receiver_init_def)
  have b: "r_sync_interest (rcvs (update_interest cfg_example rng_example 0 0 st_rated) 0) = {0, 1, 2}"
    by code_simp
  have c: "MAX_SYNC_AC cfg_example = 2" by (simp add: cfg_example_def)
  show ?thesis unfolding b c using a by simp
qed

section \<open>Properties of add, remove and remove_all\<close>

lemma add_step_existing:
  "map_of (aircraft st) i = Some a \<Longrightarrow>
   add_step cfg r now created i st =
     Inr (st\<lparr> objs := (objs st)(a := (objs st a)\<lparr> tracking := insert r (tracking (objs st a)), seen := now \<rparr>),
              rcvs := (rcvs st)(r := (rcvs st r)\<lparr> r_tracking := insert a (r_tracking (rcvs st r)) \<rparr>) \<rparr>)"
  by (simp add: add_step_def Let_def)

lemma add_step_new:
  "map_of (aircraft st) i = None \<Longrightarrow>
   in_local_partition (partition_id st) (partition_count st) i = Inr b \<Longrightarrow>
   add_step cfg r now created i st =
     Inr (st\<lparr> objs := (objs st)(next_aid st :=
                  (TrackedAircraft_init cfg i b (fst (created i)) (snd (created i)))\<lparr> tracking := {r}, seen := now \<rparr>),
              next_aid := Suc (next_aid st),
              aircraft := aircraft st @ [(i, next_aid st)],
              rcvs := (rcvs st)(r := (rcvs st r)\<lparr> r_tracking := insert (next_aid st) (r_tracking (rcvs st r)) \<rparr>) \<rparr>)"
  by (simp add: add_step_def Let_def TrackedAircraft_init_def)

lemma add_step_error:
  "map_of (aircraft st) i = None \<Longrightarrow>
   in_local_partition (partition_id st) (partition_count st) i = Inl e \<Longrightarrow>
   add_step cfg r now created i st = Inl e"
  by (simp add: add_step_def Let_def)

lemma remove_step_absent:
  "map_of (aircraft st) i = None \<Longrightarrow> remove_step r i st = st"
  by (simp add: remove_step_def)

lemma remove_step_kept:
  "map_of (aircraft st) i = Some a \<Longrightarrow> tracking (objs st a) - {r} \<noteq> {} \<Longrightarrow>
   remove_step r i st =
     st\<lparr> objs := (objs st)(a := (objs st a)\<lparr> tracking := tracking (objs st a) - {r} \<rparr>),
         rcvs := (rcvs st)(r := (rcvs st r)\<lparr> r_tracking := r_tracking (rcvs st r) - {a} \<rparr>) \<rparr>"
  by (simp add: remove_step_def Let_def)

lemma remove_step_deleted:
  "map_of (aircraft st) i = Some a \<Longrightarrow> tracking (objs st a) - {r} = {} \<Longrightarrow>
   remove_step r i st =
     st\<lparr> objs := (objs st)(a := (objs st a)\<lparr> tracking := tracking (objs st a) - {r} \<rparr>),
         rcvs := (rcvs st)(r := (rcvs st r)\<lparr> r_tracking := r_tracking (rcvs st r) - {a} \<rparr>),
         aircraft := filter (\<lambda>(k, v). k \<noteq> i) (aircraft st) \<rparr>"
  by (simp add: remove_step_def Let_def)

lemma map_of_filter_other:
  "i \<noteq> j \<Longrightarrow> map_of (filter (\<lambda>(k, v). k \<noteq> i) xs) j = map_of xs j"
  by (induction xs) auto

lemma map_of_snoc_other:
  "i \<noteq> j \<Longrightarrow> map_of (xs @ [(j, a)]) i = map_of xs i"
  by (induction xs) auto

lemma map_of_snoc_new:
  "map_of xs j = None \<Longrightarrow> map_of (xs @ [(j, a)]) j = Some a"
  by (induction xs) auto

lemma filter_fresh_key:
  "map_of xs i = None \<Longrightarrow> filter (\<lambda>(k, v). k \<noteq> i) xs = xs"
  by (induction xs) (auto split: if_splits)

lemma registry_ok_lookup:
  "registry_ok st \<Longrightarrow> map_of (aircraft st) i = Some a \<Longrightarrow> a < next_aid st"
  by (auto simp: registry_ok_def dest!: map_of_SomeD intro: rev_image_eqI)

lemma registry_ok_distinct_objs:
  assumes "registry_ok st" "map_of (aircraft st) i = Some a" "map_of (aircraft st) j = Some b" "i \<noteq> j"
  shows "a \<noteq> b"
proof -
  have d: "distinct (map snd (aircraft st))" using assms(1) by (simp add: registry_ok_def)
  have "(i, a) \<in> set (aircraft st)" "(j, b) \<in> set (aircraft st)"
    using assms(2,3) by (auto dest: map_of_SomeD)
  then show ?thesis using d assms(4)
    by (metis eq_key_imp_eq_value fst_conv snd_conv distinct_map inj_on_def prod.inject)
qed

lemma registry_ok_remove_step: "registry_ok st \<Longrightarrow> registry_ok (remove_step r i st)"
  by (fastforce simp: registry_ok_def remove_step_def Let_def distinct_map_filter split: option.splits)

lemma registry_ok_add_step:
  assumes "registry_ok st" "add_step cfg r now created i st = Inr st'"
  shows "registry_ok st'"
proof (cases "map_of (aircraft st) i")
  case (Some a)
  with assms show ?thesis by (fastforce simp: add_step_existing registry_ok_def)
next
  case None
  then obtain b where b: "in_local_partition (partition_id st) (partition_count st) i = Inr b"
    using assms(2) by (cases "in_local_partition (partition_id st) (partition_count st) i")
      (simp_all add: add_step_error)
  have "st' = st\<lparr> objs := (objs st)(next_aid st :=
                  (TrackedAircraft_init cfg i b (fst (created i)) (snd (created i)))\<lparr> tracking := {r}, seen := now \<rparr>),
              next_aid := Suc (next_aid st),
              aircraft := aircraft st @ [(i, next_aid st)],
              rcvs := (rcvs st)(r := (rcvs st r)\<lparr> r_tracking := insert (next_aid st) (r_tracking (rcvs st r)) \<rparr>) \<rparr>"
    using assms(2) add_step_new [OF None b, of cfg r now created] by simp
  then show ?thesis using assms(1) by (fastforce simp: registry_ok_def less_Suc_eq)
qed

lemma remove_step_lookup_other:
  "i \<noteq> j \<Longrightarrow> map_of (aircraft (remove_step r i st)) j = map_of (aircraft st) j"
  by (simp add: remove_step_def Let_def map_of_filter_other split: option.splits)

lemma remove_step_partition:
  "partition_id (remove_step r i st) = partition_id st"
  "partition_count (remove_step r i st) = partition_count st"
  "next_aid (remove_step r i st) = next_aid st"
  by (simp_all add: remove_step_def Let_def split: option.splits)

lemma remove_add_step_commute:
  assumes ok: "registry_ok st" and ne: "i \<noteq> j"
    and add: "add_step cfg r now created j st = Inr st'"
  shows "add_step cfg r now created j (remove_step r i st) = Inr (remove_step r i st')"
proof (cases "map_of (aircraft st) j")
  case (Some b)
  then have st': "st' = st\<lparr> objs := (objs st)(b := (objs st b)\<lparr> tracking := insert r (tracking (objs st b)), seen := now \<rparr>),
              rcvs := (rcvs st)(r := (rcvs st r)\<lparr> r_tracking := insert b (r_tracking (rcvs st r)) \<rparr>) \<rparr>"
    using add by (simp add: add_step_existing)
  have lj: "map_of (aircraft (remove_step r i st)) j = Some b"
    using Some ne by (simp add: remove_step_lookup_other)
  show ?thesis
  proof (cases "map_of (aircraft st) i")
    case None
    then show ?thesis
      using Some st' by (simp add: remove_step_absent add_step_existing)
  next
    case (Some a)
    have ab: "a \<noteq> b" using registry_ok_distinct_objs [OF ok Some \<open>map_of (aircraft st) j = Some b\<close> ne] .
    show ?thesis
      unfolding add_step_existing [OF lj] st'
      using Some ab ne
      by (simp add: remove_step_def Let_def fun_upd_twist insert_Diff_if)
  qed
next
  case None
  then obtain al where al: "in_local_partition (partition_id st) (partition_count st) j = Inr al"
    using add by (cases "in_local_partition (partition_id st) (partition_count st) j")
      (simp_all add: add_step_error)
  have st': "st' = st\<lparr> objs := (objs st)(next_aid st :=
                  (TrackedAircraft_init cfg j al (fst (created j)) (snd (created j)))\<lparr> tracking := {r}, seen := now \<rparr>),
              next_aid := Suc (next_aid st),
              aircraft := aircraft st @ [(j, next_aid st)],
              rcvs := (rcvs st)(r := (rcvs st r)\<lparr> r_tracking := insert (next_aid st) (r_tracking (rcvs st r)) \<rparr>) \<rparr>"
    using add add_step_new [OF None al, of cfg r now created] by simp
  have lj: "map_of (aircraft (remove_step r i st)) j = None"
    using None ne by (simp add: remove_step_lookup_other)
  have al': "in_local_partition (partition_id (remove_step r i st)) (partition_count (remove_step r i st)) j = Inr al"
    using al by (simp add: remove_step_partition)
  show ?thesis
  proof (cases "map_of (aircraft st) i")
    case None
    then have "map_of (aircraft st') i = None"
      using ne by (simp add: st' map_of_snoc_other)
    then show ?thesis
      using None \<open>map_of (aircraft st) j = None\<close> al st'
      by (simp add: remove_step_absent add_step_new)
  next
    case (Some a)
    have an: "a \<noteq> next_aid st" using registry_ok_lookup [OF ok Some] by simp
    have li: "map_of (aircraft st') i = Some a"
      using Some ne by (simp add: st' map_of_snoc_other)
    show ?thesis
      unfolding add_step_new [OF lj al']
      using Some an li ne
      by (simp add: st' remove_step_def Let_def fun_upd_twist insert_Diff_if)
  qed
qed

lemma remove_add_commute:
  "registry_ok st \<Longrightarrow> i \<notin> set S \<Longrightarrow> add cfg r now created S st = Inr st' \<Longrightarrow>
   add cfg r now created S (remove_step r i st) = Inr (remove_step r i st')"
proof (induction S arbitrary: st)
  case Nil
  then show ?case by simp
next
  case (Cons j S)
  from Cons.prems(3) obtain stA where
    a: "add_step cfg r now created j st = Inr stA" and b: "add cfg r now created S stA = Inr st'"
    by (auto split: sum.splits)
  have ne: "i \<noteq> j" and ni: "i \<notin> set S" using Cons.prems(2) by auto
  have "add_step cfg r now created j (remove_step r i st) = Inr (remove_step r i stA)"
    using Cons.prems(1) ne a by (rule remove_add_step_commute)
  moreover have "add cfg r now created S (remove_step r i stA) = Inr (remove_step r i st')"
    using registry_ok_add_step [OF Cons.prems(1) a] ni b by (rule Cons.IH)
  ultimately show ?case by simp
qed

lemma add_step_total:
  "partition_count st \<noteq> 0 \<Longrightarrow>
   \<exists>st'. add_step cfg r now created i st = Inr st' \<and> partition_count st' = partition_count st"
  by (auto simp: add_step_def Let_def in_local_partition_def split: option.splits)

lemma add_total:
  "partition_count st \<noteq> 0 \<Longrightarrow> \<exists>st'. add cfg r now created S st = Inr st'"
proof (induction S arbitrary: st)
  case Nil
  then show ?case by simp
next
  case (Cons i S)
  from add_step_total [OF Cons.prems, of cfg r now created i] obtain stA where
    a: "add_step cfg r now created i st = Inr stA" and p: "partition_count stA = partition_count st"
    by blast
  from Cons.IH [of stA] p Cons.prems obtain st' where "add cfg r now created S stA = Inr st'"
    by auto
  with a show ?case by simp
qed

lemma add_remove_step:
  assumes ok: "registry_ok st"
    and fresh: "\<forall>a \<in> r_tracking (rcvs st r). a < next_aid st"
    and untracked: "\<forall>a. map_of (aircraft st) i = Some a \<longrightarrow>
        a \<notin> r_tracking (rcvs st r) \<and> r \<notin> tracking (objs st a) \<and> tracking (objs st a) \<noteq> {}"
    and add: "add_step cfg r now created i st = Inr stA"
  shows "\<exists>objs' n'. remove_step r i stA = st\<lparr> objs := objs', next_aid := n' \<rparr> \<and> next_aid st \<le> n' \<and>
           (\<forall>a < next_aid st. objs' a =
              (if map_of (aircraft st) i = Some a then (objs st a)\<lparr> seen := now \<rparr> else objs st a))"
proof (cases "map_of (aircraft st) i")
  case (Some a)
  with untracked have u: "a \<notin> r_tracking (rcvs st r)" "r \<notin> tracking (objs st a)" "tracking (objs st a) \<noteq> {}"
    by auto
  have stA: "stA = st\<lparr> objs := (objs st)(a := (objs st a)\<lparr> tracking := insert r (tracking (objs st a)), seen := now \<rparr>),
              rcvs := (rcvs st)(r := (rcvs st r)\<lparr> r_tracking := insert a (r_tracking (rcvs st r)) \<rparr>) \<rparr>"
    using add Some by (simp add: add_step_existing)
  have "remove_step r i stA = st\<lparr> objs := (objs st)(a := (objs st a)\<lparr> seen := now \<rparr>), next_aid := next_aid st \<rparr>"
    using Some u by (simp add: stA remove_step_def Let_def)
  then show ?thesis using Some by (intro exI conjI) (assumption, simp_all)
next
  case None
  then obtain al where al: "in_local_partition (partition_id st) (partition_count st) i = Inr al"
    using add by (cases "in_local_partition (partition_id st) (partition_count st) i")
      (simp_all add: add_step_error)
  have stA: "stA = st\<lparr> objs := (objs st)(next_aid st :=
                  (TrackedAircraft_init cfg i al (fst (created i)) (snd (created i)))\<lparr> tracking := {r}, seen := now \<rparr>),
              next_aid := Suc (next_aid st),
              aircraft := aircraft st @ [(i, next_aid st)],
              rcvs := (rcvs st)(r := (rcvs st r)\<lparr> r_tracking := insert (next_aid st) (r_tracking (rcvs st r)) \<rparr>) \<rparr>"
    using add add_step_new [OF None al, of cfg r now created] by simp
  have nf: "next_aid st \<notin> r_tracking (rcvs st r)" using fresh by auto
  have "remove_step r i stA = st\<lparr> objs := (objs st)(next_aid st :=
                  (TrackedAircraft_init cfg i al (fst (created i)) (snd (created i)))\<lparr> tracking := {}, seen := now \<rparr>),
              next_aid := Suc (next_aid st) \<rparr>"
  proof -
    have l: "map_of (aircraft stA) i = Some (next_aid st)"
      using None by (simp add: stA map_add_def)
    have e: "tracking (objs stA (next_aid st)) - {r} = {}" by (simp add: stA)
    show ?thesis
      unfolding remove_step_deleted [OF l e]
      using None nf by (simp add: stA filter_fresh_key TrackedAircraft_init_def)
  qed
  then show ?thesis using None by (intro exI conjI) (assumption, simp_all)
qed

lemma add_remove_restores:
  assumes "distinct S" "registry_ok st"
    and "\<forall>a \<in> r_tracking (rcvs st r). a < next_aid st"
    and "\<forall>i \<in> set S. \<forall>a. map_of (aircraft st) i = Some a \<longrightarrow>
           a \<notin> r_tracking (rcvs st r) \<and> r \<notin> tracking (objs st a) \<and> tracking (objs st a) \<noteq> {}"
    and "add cfg r now created S st = Inr st1"
  shows "\<exists>objs' n'. remove r S st1 = st\<lparr> objs := objs', next_aid := n' \<rparr> \<and> next_aid st \<le> n' \<and>
           (\<forall>a < next_aid st. objs' a =
              (if \<exists>i \<in> set S. map_of (aircraft st) i = Some a then (objs st a)\<lparr> seen := now \<rparr>
               else objs st a))"
  using assms
proof (induction S arbitrary: st st1)
  case Nil
  then have "remove r [] st1 = st\<lparr> objs := objs st, next_aid := next_aid st \<rparr>" by simp
  then show ?case by (intro exI conjI) (assumption, simp_all)
next
  case (Cons i S)
  from Cons.prems(5) obtain stA where
    a: "add_step cfg r now created i st = Inr stA" and b: "add cfg r now created S stA = Inr st1"
    by (auto split: sum.splits)
  have ni: "i \<notin> set S" and dS: "distinct S" using Cons.prems(1) by auto
  have un_i: "\<forall>a. map_of (aircraft st) i = Some a \<longrightarrow>
        a \<notin> r_tracking (rcvs st r) \<and> r \<notin> tracking (objs st a) \<and> tracking (objs st a) \<noteq> {}"
    using Cons.prems(4) by simp
  from add_remove_step [OF Cons.prems(2) Cons.prems(3) un_i a]
  obtain o1 n1 where
    s1: "remove_step r i stA = st\<lparr> objs := o1, next_aid := n1 \<rparr>" and n1: "next_aid st \<le> n1"
    and o1: "\<forall>a < next_aid st. o1 a =
              (if map_of (aircraft st) i = Some a then (objs st a)\<lparr> seen := now \<rparr> else objs st a)"
    by blast
  define t where "t = st\<lparr> objs := o1, next_aid := n1 \<rparr>"
  have c: "add cfg r now created S t = Inr (remove_step r i st1)"
    using remove_add_commute [OF registry_ok_add_step [OF Cons.prems(2) a] ni b] s1
    by (simp add: t_def)
  have ok_t: "registry_ok t"
    using Cons.prems(2) n1 by (fastforce simp: registry_ok_def t_def)
  have fresh_t: "\<forall>a \<in> r_tracking (rcvs t r). a < next_aid t"
    using Cons.prems(3) n1 by (fastforce simp: t_def)
  have trk: "tracking (o1 a) = tracking (objs st a)" if "a < next_aid st" for a
    using o1 that by simp
  have un_t: "\<forall>j \<in> set S. \<forall>a. map_of (aircraft t) j = Some a \<longrightarrow>
           a \<notin> r_tracking (rcvs t r) \<and> r \<notin> tracking (objs t a) \<and> tracking (objs t a) \<noteq> {}"
  proof (intro ballI allI impI)
    fix j a assume j: "j \<in> set S" and l: "map_of (aircraft t) j = Some a"
    then have l': "map_of (aircraft st) j = Some a" by (simp add: t_def)
    then have "a < next_aid st" using Cons.prems(2) by (rule registry_ok_lookup [rotated])
    then have "tracking (objs t a) = tracking (objs st a)" by (simp add: t_def trk)
    moreover have "a \<notin> r_tracking (rcvs st r) \<and> r \<notin> tracking (objs st a) \<and> tracking (objs st a) \<noteq> {}"
      using Cons.prems(4) j l' by simp
    ultimately show "a \<notin> r_tracking (rcvs t r) \<and> r \<notin> tracking (objs t a) \<and> tracking (objs t a) \<noteq> {}"
      by (simp add: t_def)
  qed
  from Cons.IH [OF dS ok_t fresh_t un_t c]
  obtain o2 n2 where
    s2: "remove r S (remove_step r i st1) = t\<lparr> objs := o2, next_aid := n2 \<rparr>" and n2: "next_aid t \<le> n2"
    and o2: "\<forall>a < next_aid t. o2 a =
              (if \<exists>j \<in> set S. map_of (aircraft t) j = Some a then (objs t a)\<lparr> seen := now \<rparr>
               else objs t a)"
    by blast
  have r1: "remove r (i # S) st1 = st\<lparr> objs := o2, next_aid := n2 \<rparr>"
    using s2 by (simp add: t_def)
  have r2: "next_aid st \<le> n2" using n1 n2 by (simp add: t_def)
  have r3: "\<forall>a < next_aid st. o2 a =
              (if \<exists>j \<in> set (i # S). map_of (aircraft st) j = Some a then (objs st a)\<lparr> seen := now \<rparr>
               else objs st a)"
  proof (intro allI impI)
    fix a assume a: "a < next_aid st"
    then have "a < next_aid t" using n1 by (simp add: t_def)
    with o2 have "o2 a = (if \<exists>j \<in> set S. map_of (aircraft st) j = Some a then (o1 a)\<lparr> seen := now \<rparr>
               else o1 a)" by (simp add: t_def)
    moreover have "o1 a = (if map_of (aircraft st) i = Some a then (objs st a)\<lparr> seen := now \<rparr> else objs st a)"
      using o1 a by simp
    ultimately show "o2 a =
              (if \<exists>j \<in> set (i # S). map_of (aircraft st) j = Some a then (objs st a)\<lparr> seen := now \<rparr>
               else objs st a)" by auto
  qed
  from r1 r2 r3 show ?case by blast
qed

text \<open>
  Claim C7, as amended. Let the receiver \<open>r\<close> track none of the aircraft registered under
  the addresses of \<open>S\<close>, each of which is tracked by some other receiver, and let the
  stores be as the object model guarantees them. Then \<open>add(r, S); remove(r, S)\<close> returns,
  and it leaves the registry, every receiver and the tracker as they were; of the aircraft
  objects in use, those registered under an address of \<open>S\<close> have \<open>seen\<close> set to the time of
  the \<open>add\<close> and are otherwise as before, and all others are unchanged.
\<close>

theorem add_then_remove_restores:
  assumes "distinct S" "registry_ok st" "partition_count st \<noteq> 0"
    and "\<forall>a \<in> r_tracking (rcvs st r). a < next_aid st"
    and "\<forall>i \<in> set S. \<forall>a. map_of (aircraft st) i = Some a \<longrightarrow>
           a \<notin> r_tracking (rcvs st r) \<and> r \<notin> tracking (objs st a) \<and> tracking (objs st a) \<noteq> {}"
  shows "\<exists>st2. add_then_remove cfg r now created S st = Inr st2 \<and>
           aircraft st2 = aircraft st \<and>
           rcvs st2 = rcvs st \<and>
           st2\<lparr> objs := objs st, next_aid := next_aid st \<rparr> = st \<and>
           (\<forall>a < next_aid st. objs st2 a =
              (if \<exists>i \<in> set S. map_of (aircraft st) i = Some a then (objs st a)\<lparr> seen := now \<rparr>
               else objs st a))"
proof -
  from add_total [OF assms(3), of cfg r now created S] obtain st1 where
    a: "add cfg r now created S st = Inr st1" by blast
  from add_remove_restores [OF assms(1,2,4,5) a] obtain objs' n' where
    "remove r S st1 = st\<lparr> objs := objs', next_aid := n' \<rparr>"
    "\<forall>a < next_aid st. objs' a =
              (if \<exists>i \<in> set S. map_of (aircraft st) i = Some a then (objs st a)\<lparr> seen := now \<rparr>
               else objs st a)"
    by blast
  with a show ?thesis by (simp add: add_then_remove_def)
qed


theorem add_then_remove_restores_witness:
  "distinct [0xABCDEF, 0x123456 :: int] \<and> registry_ok st_forced \<and> partition_count st_forced \<noteq> 0 \<and>
   map_sum id aircraft
     (add_then_remove cfg_example 3 1000 (\<lambda>_. (1000, 0)) [0xABCDEF, 0x123456] st_forced)
     = Inr (aircraft st_forced) \<and>
   map_sum id (\<lambda>st. tracking (objs st 0))
     (add_then_remove cfg_example 3 1000 (\<lambda>_. (1000, 0)) [0xABCDEF, 0x123456] st_forced)
     = Inr (tracking (objs st_forced 0)) \<and>
   map_sum id (\<lambda>st. r_tracking (rcvs st 3))
     (add_then_remove cfg_example 3 1000 (\<lambda>_. (1000, 0)) [0xABCDEF, 0x123456] st_forced)
     = Inr {}"
proof -
  have h1: "distinct [0xABCDEF, 0x123456 :: int]" by simp
  have h2: "registry_ok st_forced"
    by (simp add: registry_ok_def st_forced_def Tracker_init_def)
  have h3: "partition_count st_forced \<noteq> 0"
    by (simp add: st_forced_def Tracker_init_def)
  have h4: "\<forall>a \<in> r_tracking (rcvs st_forced 3). a < next_aid st_forced"
    by (simp add: st_forced_def Tracker_init_def)
  have h5: "\<forall>i \<in> set [0xABCDEF, 0x123456]. \<forall>a. map_of (aircraft st_forced) i = Some a \<longrightarrow>
           a \<notin> r_tracking (rcvs st_forced 3) \<and> 3 \<notin> tracking (objs st_forced a) \<and>
           tracking (objs st_forced a) \<noteq> {}"
    by (simp add: st_forced_def Tracker_init_def)
  from add_then_remove_restores [OF h1 h2 h3 h4 h5, of cfg_example 1000 "\<lambda>_. (1000, 0)"]
  obtain st2 where
    r: "add_then_remove cfg_example 3 1000 (\<lambda>_. (1000, 0)) [0xABCDEF, 0x123456] st_forced = Inr st2"
    and a: "aircraft st2 = aircraft st_forced" and c: "rcvs st2 = rcvs st_forced"
    and o: "\<forall>a < next_aid st_forced. objs st2 a =
              (if \<exists>i \<in> set [0xABCDEF, 0x123456]. map_of (aircraft st_forced) i = Some a
               then (objs st_forced a)\<lparr> seen := 1000 \<rparr> else objs st_forced a)"
    by blast
  have "0 < next_aid st_forced" by (simp add: st_forced_def Tracker_init_def)
  with o have "tracking (objs st2 0) = tracking (objs st_forced 0)" by simp
  moreover have "r_tracking (rcvs st_forced 3) = {}" by (simp add: st_forced_def Tracker_init_def Receiver_init_def)
  ultimately show ?thesis using h1 h2 h3 r a c by simp
qed


text \<open>
  Claim C7, as stated, fails. When the receiver already tracks the aircraft, the pair of
  calls removes the edge that was there before (receiver 1 of \<open>st_forced\<close>); and for a
  receiver that did not track it (receiver 3), the aircraft keeps the \<open>seen\<close> timestamp
  that \<open>add\<close> wrote.
\<close>

theorem add_then_remove_not_identity:
  "tracking (objs st_forced 0) = {1, 2} \<and>
   map_sum id (\<lambda>st. tracking (objs st 0))
     (add_then_remove cfg_example 1 1000 (\<lambda>_. (1000, 0)) [0xABCDEF] st_forced) = Inr {2} \<and>
   r_tracking (rcvs st_forced 1) = {0} \<and>
   map_sum id (\<lambda>st. r_tracking (rcvs st 1))
     (add_then_remove cfg_example 1 1000 (\<lambda>_. (1000, 0)) [0xABCDEF] st_forced) = Inr {} \<and>
   seen (objs st_forced 0) = 395 \<and>
   map_sum id (\<lambda>st. seen (objs st 0))
     (add_then_remove cfg_example 3 1000 (\<lambda>_. (1000, 0)) [0xABCDEF] st_forced) = Inr 1000"
  by (simp add: add_then_remove_def add_step_def remove_step_def Let_def st_forced_def
      Tracker_init_def TrackedAircraft_init_def Receiver_init_def)

text \<open>
  Claim C1 says that bipartite symmetry holds after \<open>remove_all\<close> even when the receiver's
  \<open>sync_interest\<close> or \<open>adsb_seen\<close> holds an aircraft it does not track. At the end of
  \<open>disconnect_run\<close> the four sets of receiver 0 are empty, and the aircraft \<open>0xABCDEF\<close>,
  still registered and tracked by receiver 1, still has receiver 0 in its \<open>sync_interest\<close>
  and \<open>adsb_seen\<close> sets: the loop of \<open>remove_all\<close> only visits \<open>receiver.tracking\<close>.
\<close>

theorem remove_all_leaves_dangling_mirror:
  "map_sum id (\<lambda>st. (map_of (aircraft st) 0xABCDEF,
                      r_tracking (rcvs st 0), r_sync_interest (rcvs st 0), r_adsb_seen (rcvs st 0),
                      tracking (objs st 0), sync_interest (objs st 0), adsb_seen (objs st 0)))
     disconnect_run
   = Inr (Some 0, {}, {}, {}, {1}, {0, 1}, {0})"
  by code_simp

end
